theory Spec2Isabelle
  imports Complex_Main "HOL-Library.Word"
begin

unbundle bit_operations_syntax

section \<open>Data model of hll.c\<close>

text \<open>
  The C types of the source. \<open>uint32_t\<close> arithmetic wraps modulo \<open>2 ^ 32\<close>. A register
  is a C \<open>char\<close>; it is read as a signed 8-bit value (\<open>sint\<close>, \<open>scast\<close>), the reading
  of the usual x86 targets. For register values up to 127, and so for every rank the
  estimator can hold, the unsigned reading gives the same results.
\<close>

type_synonym uint32_t = "32 word"
type_synonym int_t = "32 word"
type_synonym short_t = "16 word"
type_synonym char_t = "8 word"

text \<open>
  The struct \<open>HyperLogLog\<close> (hll.c, lines 8-14). The field \<open>k\<close> holds the value of the
  \<open>short int\<close>, a number in \<open>[-32768, 32767]\<close> that \<open>HyperLogLog_init\<close> cuts down to 16 bits
  when it stores it; \<open>size\<close> is named \<open>size_hll\<close> here. The field \<open>registers\<close> is a pointer:
  \<open>None\<close> is the null pointer, \<open>Some regs\<close> a pointer to an allocated buffer with the
  contents \<open>regs\<close>, whose length is the number of bytes allocated.
\<close>

record HyperLogLog =
  k :: int
  seed :: uint32_t
  size_hll :: uint32_t
  registers :: "char_t list option"

text \<open>
  The Python exceptions the methods set, with their messages. The specification calls
  \<open>ValueError\<close> InvalidArgument and \<open>IndexError\<close> OutOfRange.
\<close>

datatype exn = ValueError string | IndexError string

text \<open>
  What a call does: it returns (\<open>Return\<close>, with the state after the call, or with the
  value for a method that only reads), it raises a Python exception (\<open>Raise\<close>, with the
  state the call leaves behind), or it runs into behaviour that C leaves undefined: an
  access outside the allocated buffer, a null pointer dereference, a shift by a count
  outside \<open>0..31\<close>.
\<close>

datatype 'a outcome = Return 'a | Raise exn 'a | Undefined

section \<open>Bit utilities\<close>

text \<open>\<open>ones\<close> (lines 433-440): the number of bits set in \<open>x\<close>.\<close>

definition ones :: "uint32_t \<Rightarrow> uint32_t" where
  "ones x0 =
     (let x1 = x0 - (drop_bit 1 x0 AND 0x55555555);
          x2 = (drop_bit 2 x1 AND 0x33333333) + (x1 AND 0x33333333);
          x3 = (drop_bit 4 x2 + x2) AND 0x0F0F0F0F;
          x4 = x3 + drop_bit 8 x3;
          x5 = x4 + drop_bit 16 x4
      in x5 AND 0x0000003F)"

text \<open>
  \<open>leadingZeroCount\<close> (lines 421-428). \<open>smear\<close> is the value of \<open>x\<close> after the five
  or-shift assignments of lines 422-426.
\<close>

definition smear :: "uint32_t \<Rightarrow> uint32_t" where
  "smear x0 =
     (let x1 = x0 OR drop_bit 1 x0;
          x2 = x1 OR drop_bit 2 x1;
          x3 = x2 OR drop_bit 4 x2;
          x4 = x3 OR drop_bit 8 x3;
          x5 = x4 OR drop_bit 16 x4
      in x5)"

definition leadingZeroCount :: "uint32_t \<Rightarrow> uint32_t" where
  "leadingZeroCount x = 32 - ones (smear x)"

section \<open>Construction\<close>

text \<open>
  \<open>HyperLogLog_new\<close> (lines 27-34): \<open>tp_alloc\<close> hands out zero-filled memory, then the
  default seed is stored.
\<close>

definition HyperLogLog_new :: HyperLogLog where
  "HyperLogLog_new = \<lparr>k = 0, seed = 314, size_hll = 0, registers = None\<rparr>"

text \<open>
  \<open>HyperLogLog_init\<close> (lines 36-56). The format \<open>i|i\<close> of line 41 converts the first
  argument to a C \<open>int\<close>, \<open>kArg\<close>, and stores its four bytes at the address of the \<open>short\<close>
  field \<open>self->k\<close> (line 42). On the little-endian targets modelled here the two low-order
  bytes become the value of \<open>k\<close>, read as a signed 16-bit number, and the other two fall
  into the padding in front of \<open>seed\<close>. \<open>seedArg\<close> is the optional seed. The fields \<open>k\<close> and
  \<open>seed\<close> are written before the range check. \<open>malloc\<close> is taken to succeed, so the buffer
  has \<open>size\<close> bytes, which \<open>memset\<close> fills with zero.
\<close>

definition HyperLogLog_init :: "HyperLogLog \<Rightarrow> int_t \<Rightarrow> uint32_t option \<Rightarrow> HyperLogLog outcome" where
  "HyperLogLog_init self kArg seedArg =
     (let self1 = self\<lparr>k := sint (ucast kArg :: short_t),
                        seed := (case seedArg of None \<Rightarrow> seed self | Some s \<Rightarrow> s)\<rparr>
      in if k self1 < 2 \<or> k self1 > 16
         then Raise (ValueError ''Number of registers must be in the range [2^2, 2^16]'') self1
         else let sz = (push_bit (nat (k self1)) 1 :: uint32_t)
              in Return (self1\<lparr>size_hll := sz, registers := Some (replicate (unat sz) 0)\<rparr>))"

text \<open>
  The states the estimator is meant to be in (section 3 of the specification): \<open>k\<close> in
  \<open>[2, 16]\<close>, \<open>size = 2^k\<close>, a buffer of \<open>size\<close> registers, each in \<open>[0, 32]\<close>.
\<close>

definition valid :: "HyperLogLog \<Rightarrow> bool" where
  "valid self \<longleftrightarrow>
     2 \<le> k self \<and> k self \<le> 16 \<and> size_hll self = push_bit (nat (k self)) 1 \<and>
     (case registers self of
        None \<Rightarrow> False
      | Some regs \<Rightarrow> length regs = unat (size_hll self) \<and> list_all (\<lambda>r. r \<le> 32) regs)"

section \<open>Insertion\<close>

text \<open>
  The index and the rank that \<open>HyperLogLog_add\<close> derives from the hash (lines 84 and
  87). The subtraction of \<open>self->k\<close> is done in \<open>uint32_t\<close>.
\<close>

definition add_index :: "int \<Rightarrow> uint32_t \<Rightarrow> uint32_t" where
  "add_index kv hash = drop_bit (nat (32 - kv)) hash + 1"

definition add_rank :: "int \<Rightarrow> uint32_t \<Rightarrow> uint32_t" where
  "add_rank kv hash =
     leadingZeroCount (drop_bit (nat kv) (push_bit (nat kv) hash)) - word_of_int kv + 1"

text \<open>
  \<open>HyperLogLog_add\<close> (lines 68-94). The hash function of murmur3.h is not part of
  hll.c; it is the parameter \<open>MurmurHash3_x86_32\<close>, from the data and the seed to the
  32-bit hash. In the comparison the register is promoted to \<open>int\<close> and converted to
  \<open>uint32_t\<close>; the assignment keeps the low 8 bits of \<open>rank\<close>.
\<close>

definition HyperLogLog_add ::
  "(char_t list \<Rightarrow> uint32_t \<Rightarrow> uint32_t) \<Rightarrow> HyperLogLog \<Rightarrow> char_t list \<Rightarrow> HyperLogLog outcome" where
  "HyperLogLog_add MurmurHash3_x86_32 self data =
     (let hash = MurmurHash3_x86_32 data (seed self)
      in if k self \<le> 0 \<or> 32 \<le> k self then Undefined
         else let index = add_index (k self) hash;
                  rank = add_rank (k self) hash
              in case registers self of
                   None \<Rightarrow> Undefined
                 | Some regs \<Rightarrow>
                     if length regs \<le> unat index then Undefined
                     else if rank > scast (regs ! unat index)
                     then Return (self\<lparr>registers := Some (regs[unat index := ucast rank])\<rparr>)
                     else Return self)"

text \<open>Calling \<open>add\<close> \<open>n\<close> times with the same data, stopping at the first call that fails.\<close>

fun add_times ::
  "(char_t list \<Rightarrow> uint32_t \<Rightarrow> uint32_t) \<Rightarrow> nat \<Rightarrow> HyperLogLog \<Rightarrow> char_t list \<Rightarrow> HyperLogLog outcome" where
  "add_times mh 0 self data = Return self"
| "add_times mh (Suc n) self data =
     (case HyperLogLog_add mh self data of
        Return self' \<Rightarrow> add_times mh n self' data
      | Raise e self' \<Rightarrow> Raise e self'
      | Undefined \<Rightarrow> Undefined)"

section \<open>Direct register access\<close>

text \<open>\<open>HyperLogLog_set_register\<close> (lines 228-266), with its four checks in order.\<close>

definition HyperLogLog_set_register :: "HyperLogLog \<Rightarrow> uint32_t \<Rightarrow> uint32_t \<Rightarrow> HyperLogLog outcome" where
  "HyperLogLog_set_register self index rank =
     (if index < 0 then Raise (ValueError ''Index is negative.'') self
      else if index > size_hll self
      then Raise (IndexError ''Index greater than the number of registers.'') self
      else if rank > 32
      then Raise (ValueError ''Rank is greater than the maximum possible rank.'') self
      else if rank < 0 then Raise (ValueError ''Rank is negative.'') self
      else case registers self of
             None \<Rightarrow> Undefined
           | Some regs \<Rightarrow>
               if length regs \<le> unat index then Undefined
               else Return (self\<lparr>registers := Some (regs[unat index := ucast rank])\<rparr>))"

text \<open>
  \<open>HyperLogLog_size\<close> (lines 280-284) builds a Python int from the C \<open>int\<close> value of
  \<open>size\<close>.
\<close>

definition HyperLogLog_size :: "HyperLogLog \<Rightarrow> int" where
  "HyperLogLog_size self = sint (size_hll self)"

text \<open>
  A block of memory comes from C's \<open>malloc\<close> or from the Python runtime's own allocator
  of small objects. A bytearray owns a buffer: its bytes, and where the block came from.
\<close>

datatype allocator = Malloc | Pymalloc

record bytearray =
  ob_bytes :: "char_t list"
  ob_bytes_from :: allocator

text \<open>
  \<open>HyperLogLog_registers\<close> (lines 217-223) copies \<open>size\<close> bytes of the buffer into a new
  bytearray. \<open>PyByteArray_FromStringAndSize\<close> asks the runtime's allocator for \<open>size + 1\<close>
  bytes; the runtime is not part of hll.c, so the parameter \<open>PyObject_Malloc\<close> says where
  a request of a given number of bytes is served from.
\<close>

definition HyperLogLog_registers :: "(nat \<Rightarrow> allocator) \<Rightarrow> HyperLogLog \<Rightarrow> bytearray outcome" where
  "HyperLogLog_registers PyObject_Malloc self =
     (case registers self of
        None \<Rightarrow> Undefined
      | Some regs \<Rightarrow>
          if length regs < unat (size_hll self) then Undefined
          else Return \<lparr>ob_bytes = take (unat (size_hll self)) regs,
                       ob_bytes_from = PyObject_Malloc (unat (size_hll self) + 1)\<rparr>)"

section \<open>Merge\<close>

text \<open>
  Python objects are reached through references: the heap maps an address to the struct
  stored there.
\<close>

type_synonym heap = "nat \<Rightarrow> HyperLogLog option"

text \<open>
  The value that one iteration of the loop of lines 202-206 leaves in
  \<open>self->registers[i]\<close>: both operands of the comparison are \<open>char\<close>, promoted to \<open>int\<close>.
\<close>

definition char_max :: "char_t \<Rightarrow> char_t \<Rightarrow> char_t" where
  "char_max a b = (if sint a < sint b then b else a)"

text \<open>
  The loop of lines 202-206, from iteration \<open>i\<close> on, with \<open>n\<close> the value of \<open>self->size\<close>.
  Both operands of the comparison are \<open>char\<close>, promoted to \<open>int\<close>.
\<close>

function merge_loop :: "nat \<Rightarrow> nat \<Rightarrow> char_t list \<Rightarrow> char_t list \<Rightarrow> char_t list" where
  "merge_loop i n regs hllRegisters =
     (if i < n
      then merge_loop (Suc i) n
             (if sint (regs ! i) < sint (hllRegisters ! i)
              then regs[i := hllRegisters ! i] else regs)
             hllRegisters
      else regs)"
  by pat_completeness auto

termination
  by (relation "measure (\<lambda>(i, n, regs, hllRegisters). n - i)") auto

declare merge_loop.simps [simp del]

text \<open>
  \<open>HyperLogLog_merge\<close> (lines 178-211), called on the object at \<open>self_p\<close> with the
  object at \<open>hll_p\<close> as its argument. The peer is read through its methods \<open>size\<close> and
  \<open>registers\<close>; the size comparison is between a C \<open>long\<close> and the \<open>uint32_t\<close> field,
  both taken as integers. \<open>hllRegisters\<close> is the address of the buffer that the new
  bytearray owns (line 200), and line 208 passes it to \<open>free\<close> after the loop. C defines
  \<open>free\<close> only for a block that \<open>malloc\<close> handed out.
\<close>

definition HyperLogLog_merge :: "(nat \<Rightarrow> allocator) \<Rightarrow> heap \<Rightarrow> nat \<Rightarrow> nat \<Rightarrow> heap outcome" where
  "HyperLogLog_merge PyObject_Malloc h self_p hll_p =
     (case (h self_p, h hll_p) of
        (Some self, Some hll) \<Rightarrow>
          let hllSize = HyperLogLog_size hll
          in if hllSize \<noteq> uint (size_hll self)
             then Raise (ValueError ''HyperLogLogs must be the same size'') h
             else (case (registers self, HyperLogLog_registers PyObject_Malloc hll) of
                     (Some regs, Return hllByteArray) \<Rightarrow>
                       let hllRegisters = ob_bytes hllByteArray
                       in if length regs < unat (size_hll self) \<or>
                             length hllRegisters < unat (size_hll self)
                          then Undefined
                          else let regs' = merge_loop 0 (unat (size_hll self)) regs hllRegisters
                               in if ob_bytes_from hllByteArray \<noteq> Malloc then Undefined
                                  else Return (h(self_p \<mapsto> self\<lparr>registers := Some regs'\<rparr>))
                   | _ \<Rightarrow> Undefined)
      | _ \<Rightarrow> Undefined)"

section \<open>Estimation\<close>

text \<open>
  \<open>HyperLogLog_cardinality\<close> (lines 99-153) computes in \<open>double\<close>. The model computes
  in the real numbers: what C rounds is exact here. A result that is no number in C, the
  logarithm of a number that is not positive or a product of zero and infinity, is kept
  apart from the finite results.
\<close>

datatype double = Finite real | PosInf | NaN

definition two_32 :: real where
  "two_32 = 4294967296"

definition neg_two_32 :: real where
  "neg_two_32 = - 4294967296"

text \<open>The \<open>switch\<close> of lines 106-119.\<close>

definition alpha_of :: "uint32_t \<Rightarrow> real" where
  "alpha_of sz =
     (if sz = 16 then 0.673
      else if sz = 32 then 0.697
      else if sz = 64 then 0.709
      else 0.7213 / (1 + 1.079 / real (unat sz)))"

text \<open>The loop of lines 124-127: \<open>rank\<close> is the register converted to \<open>uint32_t\<close>.\<close>

function sum_loop :: "nat \<Rightarrow> nat \<Rightarrow> char_t list \<Rightarrow> real \<Rightarrow> real" where
  "sum_loop i n regs s =
     (if i < n
      then sum_loop (Suc i) n regs (s + 1 / 2 ^ unat (scast (regs ! i) :: uint32_t))
      else s)"
  by pat_completeness auto

termination
  by (relation "measure (\<lambda>(i, n, regs, s). n - i)") auto

declare sum_loop.simps [simp del]

text \<open>
  The loop of lines 135-138. Its test compares the pointer \<open>self->registers\<close> with 0,
  not the register it points to.
\<close>

function zeros_loop :: "nat \<Rightarrow> nat \<Rightarrow> char_t list option \<Rightarrow> uint32_t \<Rightarrow> uint32_t" where
  "zeros_loop i n registers_p zeros =
     (if i < n
      then zeros_loop (Suc i) n registers_p (if registers_p = None then zeros + 1 else zeros)
      else zeros)"
  by pat_completeness auto

termination
  by (relation "measure (\<lambda>(i, n, registers_p, zeros). n - i)") auto

declare zeros_loop.simps [simp del]

text \<open>Line 129, with the products taken from left to right in \<open>double\<close>.\<close>

definition raw_estimate :: "uint32_t \<Rightarrow> char_t list \<Rightarrow> real" where
  "raw_estimate sz regs =
     alpha_of sz * (1 / sum_loop 0 (unat sz) regs 0) * real (unat sz) * real (unat sz)"

text \<open>The count \<open>zeros\<close> after the loop of lines 135-138.\<close>

definition count_zeros :: "HyperLogLog \<Rightarrow> uint32_t" where
  "count_zeros self = zeros_loop 0 (unat (size_hll self)) (registers self) 0"

text \<open>
  The value of \<open>estimate\<close> after lines 130-144. The quotient \<open>self->size/zeros\<close> is an
  integer division; \<open>zeros\<close> is at most \<open>size\<close>, so the logarithm is taken of a number
  that is at least 1.
\<close>

definition small_range :: "HyperLogLog \<Rightarrow> char_t list \<Rightarrow> real" where
  "small_range self regs =
     (let raw = raw_estimate (size_hll self) regs
      in if raw \<le> 2.5 * real (unat (size_hll self))
         then let zeros = count_zeros self
              in if zeros \<noteq> 0
                 then real (unat (size_hll self)) * ln (real (unat (size_hll self div zeros)))
                 else raw
         else 0)"

text \<open>
  The whole method. With \<open>size = 0\<close>, the state \<open>HyperLogLog_new\<close> leaves, no register
  is read and \<open>1/sum\<close> is infinite: the product with \<open>size\<close> is not a number.
\<close>

definition HyperLogLog_cardinality :: "HyperLogLog \<Rightarrow> double outcome" where
  "HyperLogLog_cardinality self =
     (let n = unat (size_hll self)
      in if n = 0 then Return NaN
         else case registers self of
                None \<Rightarrow> Undefined
              | Some regs \<Rightarrow>
                  if length regs < n then Undefined
                  else let raw = raw_estimate (size_hll self) regs;
                           estimate1 = small_range self regs;
                           estimate2 = (if estimate1 \<le> (1 / 30) * two_32
                                        then raw else estimate1)
                       in if estimate2 > (1 / 30) * two_32
                          then let arg = 1 - raw / two_32
                               in Return (if 0 < arg then Finite (neg_two_32 * ln arg)
                                          else if arg = 0 then PosInf else NaN)
                          else Return (Finite estimate2))"

section \<open>Example states\<close>

text \<open>The estimators that construction returns for \<open>k = 2\<close> and \<open>k = 4\<close> with the default seed.\<close>

definition fresh_k2 :: HyperLogLog where
  "fresh_k2 = \<lparr>k = 2, seed = 314, size_hll = 4, registers = Some [0, 0, 0, 0]\<rparr>"

definition fresh_k4 :: HyperLogLog where
  "fresh_k4 = \<lparr>k = 4, seed = 314, size_hll = 16, registers = Some (replicate 16 0)\<rparr>"

text \<open>
  Two estimators of \<open>k = 2\<close> with registers set, and a heap that holds them at the
  addresses 1 and 2 and a fresh estimator of \<open>k = 4\<close> at the address 3.
\<close>

definition example_a :: HyperLogLog where
  "example_a = \<lparr>k = 2, seed = 314, size_hll = 4, registers = Some [0, 5, 2, 7]\<rparr>"

definition example_b :: HyperLogLog where
  "example_b = \<lparr>k = 2, seed = 314, size_hll = 4, registers = Some [3, 1, 2, 9]\<rparr>"

definition example_heap :: heap where
  "example_heap = [1 \<mapsto> example_a, 2 \<mapsto> example_b, 3 \<mapsto> fresh_k4]"

text \<open>
  Two runtimes. A CPython 3 runtime as it is configured by default serves requests of up
  to 512 bytes from its own arenas and larger ones from \<open>malloc\<close>; a runtime started with
  \<open>PYTHONMALLOC=malloc\<close> serves every request from \<open>malloc\<close>.
\<close>

definition pymalloc_default :: "nat \<Rightarrow> allocator" where
  "pymalloc_default n = (if n \<le> 512 then Pymalloc else Malloc)"

definition malloc_only :: "nat \<Rightarrow> allocator" where
  "malloc_only n = Malloc"

section \<open>The specification's rank\<close>

text \<open>
  Section 4.2 of the specification in its own words: the remainder is the low-order
  \<open>n\<close> bits of the hash, listed from the most significant of them; the rank is the number
  of leading zero bits of the remainder, plus 1.
\<close>

definition remainder_bits :: "nat \<Rightarrow> uint32_t \<Rightarrow> bool list" where
  "remainder_bits n h = map (bit h) (rev [0..<n])"

definition leading_zero_bits :: "bool list \<Rightarrow> nat" where
  "leading_zero_bits bs = length (takeWhile (\<lambda>b. \<not> b) bs)"

definition spec_rank :: "nat \<Rightarrow> uint32_t \<Rightarrow> nat" where
  "spec_rank kv h = leading_zero_bits (remainder_bits (32 - kv) h) + 1"

section \<open>Leading zeros and population count\<close>

lemma lz_0: "leading_zero_bits (remainder_bits 0 h) = 0"
  by (simp add: remainder_bits_def leading_zero_bits_def)

lemma lz_Suc:
  "leading_zero_bits (remainder_bits (Suc n) h) =
     (if bit h n then 0 else Suc (leading_zero_bits (remainder_bits n h)))"
  by (simp add: remainder_bits_def leading_zero_bits_def)

lemma lz_le: "leading_zero_bits (remainder_bits n h) \<le> n"
  by (induction n) (simp_all add: lz_0 lz_Suc)

lemma lz_clear:
  "j < n \<Longrightarrow> n - leading_zero_bits (remainder_bits n h) \<le> j \<Longrightarrow> \<not> bit h j"
proof (induction n)
  case 0
  then show ?case by simp
next
  case (Suc n)
  show ?case
  proof (cases "bit h n")
    case True
    with Suc.prems show ?thesis by (simp add: lz_Suc)
  next
    case False
    show ?thesis
    proof (cases "j = n")
      case True
      with False show ?thesis by simp
    next
      case False
      with Suc.prems \<open>\<not> bit h n\<close>
      have "j < n" "n - leading_zero_bits (remainder_bits n h) \<le> j"
        by (simp_all add: lz_Suc)
      then show ?thesis by (rule Suc.IH)
    qed
  qed
qed

lemma lz_top:
  "leading_zero_bits (remainder_bits n h) < n \<Longrightarrow>
   bit h (n - leading_zero_bits (remainder_bits n h) - 1)"
proof (induction n)
  case 0
  then show ?case by simp
next
  case (Suc n)
  show ?case
  proof (cases "bit h n")
    case True
    then show ?thesis by (simp add: lz_Suc)
  next
    case False
    with Suc.prems have "leading_zero_bits (remainder_bits n h) < n"
      by (simp add: lz_Suc)
    then have "bit h (n - leading_zero_bits (remainder_bits n h) - 1)" by (rule Suc.IH)
    with False show ?thesis by (simp add: lz_Suc)
  qed
qed

lemma lz_exists_iff:
  "(\<exists>j. i \<le> j \<and> j < n \<and> bit h j) \<longleftrightarrow> i < n - leading_zero_bits (remainder_bits n h)"
proof
  assume "\<exists>j. i \<le> j \<and> j < n \<and> bit h j"
  then obtain j where j: "i \<le> j" "j < n" "bit h j" by blast
  have "\<not> n - leading_zero_bits (remainder_bits n h) \<le> j"
    using lz_clear [of j n h] j by blast
  with j show "i < n - leading_zero_bits (remainder_bits n h)" by simp
next
  assume a: "i < n - leading_zero_bits (remainder_bits n h)"
  then have "leading_zero_bits (remainder_bits n h) < n" by simp
  then have "bit h (n - leading_zero_bits (remainder_bits n h) - 1)" by (rule lz_top)
  moreover have "i \<le> n - leading_zero_bits (remainder_bits n h) - 1" using a by simp
  moreover have "n - leading_zero_bits (remainder_bits n h) - 1 < n" using a by simp
  ultimately show "\<exists>j. i \<le> j \<and> j < n \<and> bit h j" by blast
qed

lemma lz_cong:
  "(\<And>j. j < n \<Longrightarrow> bit x j = bit y j) \<Longrightarrow>
   leading_zero_bits (remainder_bits n x) = leading_zero_bits (remainder_bits n y)"
  by (induction n) (simp_all add: lz_0 lz_Suc)

lemma lz_all_clear:
  "(\<And>j. j < n \<Longrightarrow> \<not> bit x j) \<Longrightarrow> leading_zero_bits (remainder_bits n x) = n"
  by (induction n) (simp_all add: lz_0 lz_Suc)

lemma lz_high_clear:
  "(\<And>j. m \<le> j \<Longrightarrow> j < m + d \<Longrightarrow> \<not> bit x j) \<Longrightarrow>
   leading_zero_bits (remainder_bits (m + d) x) = d + leading_zero_bits (remainder_bits m x)"
  by (induction d) (simp_all add: lz_Suc)

lemma ones_mask: "n \<le> 32 \<Longrightarrow> ones (mask n) = of_nat n"
proof -
  assume "n \<le> 32"
  then have "n \<in> set [0..<33]" by simp
  then show ?thesis
    apply (simp add: upt_rec)
    apply (elim disjE)
    apply (simp_all add: ones_def Let_def mask_eq_exp_minus_1)
    done
qed

lemma or_shift_bit:
  fixes x :: uint32_t
  assumes "\<And>i. bit x i \<longleftrightarrow> (\<exists>d<m. bit y (i + d))"
  shows "bit (x OR drop_bit m x) i \<longleftrightarrow> (\<exists>d<2 * m. bit y (i + d))"
proof
  assume "bit (x OR drop_bit m x) i"
  then have "bit x i \<or> bit x (m + i)" by (simp add: bit_or_iff bit_drop_bit_eq)
  then show "\<exists>d<2 * m. bit y (i + d)"
  proof
    assume "bit x i"
    then obtain d where "d < m" "bit y (i + d)" using assms by blast
    then show ?thesis by (intro exI [of _ d]) simp
  next
    assume "bit x (m + i)"
    then obtain d where "d < m" "bit y (m + i + d)" using assms by blast
    then show ?thesis by (intro exI [of _ "m + d"]) (simp add: ac_simps)
  qed
next
  assume "\<exists>d<2 * m. bit y (i + d)"
  then obtain d where d: "d < 2 * m" "bit y (i + d)" by blast
  show "bit (x OR drop_bit m x) i"
  proof (cases "d < m")
    case True
    with d have "bit x i" using assms by blast
    then show ?thesis by (simp add: bit_or_iff)
  next
    case False
    with d have "d - m < m" "bit y (m + i + (d - m))" by simp_all
    then have "bit x (m + i)" using assms by blast
    then show ?thesis by (simp add: bit_or_iff bit_drop_bit_eq)
  qed
qed

lemma smear_bit: "bit (smear x) i \<longleftrightarrow> (\<exists>d<32. bit x (i + d))"
proof -
  define x1 where "x1 = x OR drop_bit 1 x"
  define x2 where "x2 = x1 OR drop_bit 2 x1"
  define x3 where "x3 = x2 OR drop_bit 4 x2"
  define x4 where "x4 = x3 OR drop_bit 8 x3"
  define x5 where "x5 = x4 OR drop_bit 16 x4"
  have b0: "bit x i \<longleftrightarrow> (\<exists>d<1. bit x (i + d))" for i by simp
  have b1: "bit x1 i \<longleftrightarrow> (\<exists>d<2. bit x (i + d))" for i
    unfolding x1_def using or_shift_bit [of x 1 x i, OF b0] by simp
  have b2: "bit x2 i \<longleftrightarrow> (\<exists>d<4. bit x (i + d))" for i
    unfolding x2_def using or_shift_bit [of x1 2 x i, OF b1] by simp
  have b3: "bit x3 i \<longleftrightarrow> (\<exists>d<8. bit x (i + d))" for i
    unfolding x3_def using or_shift_bit [of x2 4 x i, OF b2] by simp
  have b4: "bit x4 i \<longleftrightarrow> (\<exists>d<16. bit x (i + d))" for i
    unfolding x4_def using or_shift_bit [of x3 8 x i, OF b3] by simp
  have b5: "bit x5 i \<longleftrightarrow> (\<exists>d<32. bit x (i + d))" for i
    unfolding x5_def using or_shift_bit [of x4 16 x i, OF b4] by simp
  have "smear x = x5"
    by (simp add: smear_def Let_def x1_def x2_def x3_def x4_def x5_def)
  then show ?thesis by (simp add: b5)
qed

lemma smear_mask: "smear x = mask (32 - leading_zero_bits (remainder_bits 32 x))"
proof (rule bit_eqI)
  fix i
  have "bit (smear x) i \<longleftrightarrow> (\<exists>j. i \<le> j \<and> j < 32 \<and> bit x j)"
  proof
    assume "bit (smear x) i"
    then obtain d where "d < 32" "bit x (i + d)" unfolding smear_bit by blast
    moreover from this have "i + d < 32" using bit_imp_le_length [of x "i + d"] by simp
    ultimately show "\<exists>j. i \<le> j \<and> j < 32 \<and> bit x j" by (intro exI [of _ "i + d"]) simp
  next
    assume "\<exists>j. i \<le> j \<and> j < 32 \<and> bit x j"
    then obtain j where "i \<le> j" "j < 32" "bit x j" by blast
    then have "j - i < 32" "bit x (i + (j - i))" by simp_all
    then show "bit (smear x) i" unfolding smear_bit by blast
  qed
  also have "\<dots> \<longleftrightarrow> i < 32 - leading_zero_bits (remainder_bits 32 x)"
    by (rule lz_exists_iff)
  also have "\<dots> \<longleftrightarrow> bit (mask (32 - leading_zero_bits (remainder_bits 32 x)) :: uint32_t) i"
    by (auto simp add: bit_mask_iff)
  finally show "bit (smear x) i =
      bit (mask (32 - leading_zero_bits (remainder_bits 32 x)) :: uint32_t) i" .
qed

lemma leadingZeroCount_eq:
  "leadingZeroCount x = of_nat (leading_zero_bits (remainder_bits 32 x))"
proof -
  have le: "leading_zero_bits (remainder_bits 32 x) \<le> 32" by (rule lz_le)
  have "leadingZeroCount x = 32 - of_nat (32 - leading_zero_bits (remainder_bits 32 x))"
    by (simp add: leadingZeroCount_def smear_mask ones_mask)
  also have "\<dots> = of_nat (leading_zero_bits (remainder_bits 32 x))"
    using le by simp
  finally show ?thesis .
qed

section \<open>The rank derived by add\<close>

lemma low_bits_bit:
  fixes h :: uint32_t
  assumes "n \<le> 32"
  shows "bit (drop_bit n (push_bit n h)) j \<longleftrightarrow> j < 32 - n \<and> bit h j"
  using assms bit_imp_le_length [of h j]
  by (auto simp add: bit_drop_bit_eq bit_push_bit_iff)

lemma lz_low_bits:
  fixes h :: uint32_t
  assumes "n \<le> 32"
  shows "leading_zero_bits (remainder_bits 32 (drop_bit n (push_bit n h))) =
         n + leading_zero_bits (remainder_bits (32 - n) h)"
proof -
  let ?low = "drop_bit n (push_bit n h)"
  have "leading_zero_bits (remainder_bits ((32 - n) + n) ?low) =
        n + leading_zero_bits (remainder_bits (32 - n) ?low)"
    by (rule lz_high_clear) (simp add: low_bits_bit assms)
  moreover have "leading_zero_bits (remainder_bits (32 - n) ?low) =
        leading_zero_bits (remainder_bits (32 - n) h)"
    by (rule lz_cong) (simp add: low_bits_bit assms)
  ultimately show ?thesis using assms by simp
qed

lemma add_rank_eq:
  assumes "0 \<le> kv" "kv \<le> 32"
  shows "add_rank kv h = of_nat (spec_rank (nat kv) h)"
proof -
  have n: "nat kv \<le> 32" using assms by simp
  have kv: "(word_of_int kv :: uint32_t) = of_nat (nat kv)" using assms by simp
  show ?thesis
    unfolding add_rank_def leadingZeroCount_eq lz_low_bits [OF n] spec_rank_def kv
    by simp
qed

lemma spec_rank_le: "n \<le> 32 \<Longrightarrow> spec_rank n h \<le> 33 - n"
  using lz_le [of "32 - n" h] by (simp add: spec_rank_def)

lemma unat_add_rank:
  assumes "0 \<le> kv" "kv \<le> 32"
  shows "unat (add_rank kv h) = spec_rank (nat kv) h"
proof -
  have "spec_rank (nat kv) h \<le> 33" using spec_rank_le [of "nat kv" h] assms by linarith
  then have "unat (of_nat (spec_rank (nat kv) h) :: uint32_t) = spec_rank (nat kv) h"
    by (simp add: unat_of_nat)
  then show ?thesis by (simp add: add_rank_eq [OF assms])
qed

text \<open>
  Claim C8. For every 32-bit hash \<open>h\<close> and every \<open>k\<close> the shifts of \<open>add\<close> are defined for,
  the rank derived by \<open>add\<close> is the number of leading zero bits of the \<open>(32 - k)\<close>-bit
  low-order remainder of \<open>h\<close>, plus 1; when the remainder is all zero, the rank is
  \<open>(32 - k) + 1\<close>.
\<close>

theorem rank_is_leading_zeros_plus_one:
  "0 < kv \<and> kv < 32 \<longrightarrow>
     unat (add_rank kv h) = leading_zero_bits (remainder_bits (nat (32 - kv)) h) + 1 \<and>
     (take_bit (nat (32 - kv)) h = 0 \<longrightarrow> unat (add_rank kv h) = nat (32 - kv) + 1)"
proof (intro impI conjI)
  assume a: "0 < kv \<and> kv < 32"
  then have r: "unat (add_rank kv h) = spec_rank (nat kv) h"
    by (intro unat_add_rank) simp_all
  have e: "32 - nat kv = nat (32 - kv)" using a by linarith
  show "unat (add_rank kv h) = leading_zero_bits (remainder_bits (nat (32 - kv)) h) + 1"
    by (simp add: r spec_rank_def e)
  assume z: "take_bit (nat (32 - kv)) h = 0"
  have "\<not> bit h j" if "j < nat (32 - kv)" for j
  proof
    assume "bit h j"
    with that have "bit (take_bit (nat (32 - kv)) h) j" by (simp add: bit_take_bit_iff)
    with z show False by simp
  qed
  then have "leading_zero_bits (remainder_bits (nat (32 - kv)) h) = nat (32 - kv)"
    by (rule lz_all_clear)
  then show "unat (add_rank kv h) = nat (32 - kv) + 1"
    by (simp add: r spec_rank_def e)
qed

theorem rank_is_leading_zeros_plus_one_witness:
  "(0::int) < 4 \<and> (4::int) < 32 \<and> take_bit (nat (32 - 4)) (0xF0000000 :: uint32_t) = 0 \<and>
   unat (add_rank 4 0xF0000000) = 29 \<and> unat (add_rank 4 0x01234567) = 3 + 1"
  using rank_is_leading_zeros_plus_one [of 4 "0xF0000000"]
    rank_is_leading_zeros_plus_one [of 4 "0x01234567"]
  by (simp add: remainder_bits_def leading_zero_bits_def upt_rec)

section \<open>Construction and the width of k\<close>

lemma rep4: "replicate 4 x = [x, x, x, x]"
  by (simp add: eval_nat_numeral)

lemma sz_pow:
  assumes "2 \<le> kv" "kv \<le> 16"
  shows "unat (push_bit (nat kv) 1 :: uint32_t) = 2 ^ nat kv"
proof -
  have "nat kv < 32" using assms by linarith
  then have lt: "(2::nat) ^ nat kv < 2 ^ 32" by (intro power_strict_increasing) simp_all
  have "(push_bit (nat kv) 1 :: uint32_t) = of_nat (2 ^ nat kv)"
    by (simp add: push_bit_eq_mult)
  then have "unat (push_bit (nat kv) 1 :: uint32_t) = 2 ^ nat kv mod 2 ^ LENGTH(32)"
    by (simp only: unat_of_nat)
  also have "\<dots> = 2 ^ nat kv mod 2 ^ 32" by simp
  also have "\<dots> = 2 ^ nat kv" using lt by (rule mod_less)
  finally show ?thesis .
qed


lemma sz_pow2:
  assumes "2 \<le> kv" "kv \<le> 16"
  shows "unat ((2::uint32_t) ^ nat kv) = 2 ^ nat kv"
  using sz_pow [OF assms] by (simp add: push_bit_eq_mult)

lemma valid_fresh:
  assumes "2 \<le> kv" "kv \<le> 16"
  shows "valid \<lparr>k = kv, seed = sd, size_hll = 2 ^ nat kv,
       registers = Some (replicate (2 ^ nat kv) 0)\<rparr>"
  using assms by (simp add: valid_def sz_pow2 list_all_length)

text \<open>What construction does, by the value that the \<open>short\<close> field holds after line 42.\<close>

lemma init_returns:
  assumes "sint (ucast kArg :: short_t) = kv" "2 \<le> kv" "kv \<le> 16"
  shows "HyperLogLog_init HyperLogLog_new kArg sd =
     Return \<lparr>k = kv, seed = (case sd of None \<Rightarrow> 314 | Some s \<Rightarrow> s),
       size_hll = 2 ^ nat kv, registers = Some (replicate (2 ^ nat kv) 0)\<rparr>"
  using assms
  by (simp add: HyperLogLog_init_def HyperLogLog_new_def Let_def sz_pow2 split: option.split)

lemma init_raises:
  assumes "sint (ucast kArg :: short_t) = kv" "kv < 2 \<or> 16 < kv"
  shows "HyperLogLog_init HyperLogLog_new kArg sd =
     Raise (ValueError ''Number of registers must be in the range [2^2, 2^16]'')
       \<lparr>k = kv, seed = (case sd of None \<Rightarrow> 314 | Some s \<Rightarrow> s), size_hll = 0,
        registers = None\<rparr>"
  using assms
  by (auto simp add: HyperLogLog_init_def HyperLogLog_new_def Let_def split: option.split)

lemma init_valid:
  assumes "HyperLogLog_init HyperLogLog_new kArg sd = Return s"
  shows "valid s \<and> k s = sint (ucast kArg :: short_t) \<and> unat (size_hll s) = 2 ^ nat (k s) \<and>
    registers s = Some (replicate (2 ^ nat (k s)) 0)"
proof (cases "sint (ucast kArg :: short_t) < 2 \<or> 16 < sint (ucast kArg :: short_t)")
  case True
  with assms show ?thesis using init_raises [OF refl True, of sd] by simp
next
  case False
  then have r: "2 \<le> sint (ucast kArg :: short_t)" "sint (ucast kArg :: short_t) \<le> 16"
    by simp_all
  from assms show ?thesis
    using init_returns [OF refl r, of sd] valid_fresh [OF r] sz_pow2 [OF r] by auto
qed

text \<open>
  Claim C7 (construction fails exactly when \<open>k < 2\<close> or \<open>k > 16\<close>). The range check reads
  the \<open>short\<close> field, which holds the two low-order bytes of the argument only. The
  argument \<open>65538 = 2^16 + 2\<close> is above 16, yet construction succeeds and returns the
  estimator of \<open>k = 2\<close>. The arguments 1 and 17 raise \<open>ValueError\<close>, and the argument 4
  returns the estimator of \<open>k = 4\<close> with its 16 registers at 0.
\<close>

theorem init_truncates_k:
  "(16::int) < sint (65538 :: int_t) \<and>
   HyperLogLog_init HyperLogLog_new 65538 None = Return fresh_k2 \<and>
   HyperLogLog_init HyperLogLog_new 17 None =
     Raise (ValueError ''Number of registers must be in the range [2^2, 2^16]'')
       (HyperLogLog_new\<lparr>k := 17\<rparr>) \<and>
   HyperLogLog_init HyperLogLog_new 1 None =
     Raise (ValueError ''Number of registers must be in the range [2^2, 2^16]'')
       (HyperLogLog_new\<lparr>k := 1\<rparr>) \<and>
   HyperLogLog_init HyperLogLog_new 4 None = Return fresh_k4"
  by (simp add: HyperLogLog_init_def HyperLogLog_new_def Let_def fresh_k2_def fresh_k4_def rep4)

section \<open>The checks of set_register\<close>

text \<open>
  Claim C10. In \<open>set_register\<close> the two error branches for a negative argument
  (\<open>index < 0\<close> and \<open>rank < 0\<close>) are unreachable for every call: \<open>index\<close> and \<open>rank\<close> are
  unsigned 32-bit values, both comparisons are false, and no call ends with either of
  the two errors.
\<close>

theorem set_register_negative_branches_dead:
  "\<not> index < 0 \<and> \<not> rank < 0 \<and>
   (\<forall>s. HyperLogLog_set_register self index rank \<noteq>
          Raise (ValueError ''Index is negative.'') s) \<and>
   (\<forall>s. HyperLogLog_set_register self index rank \<noteq>
          Raise (ValueError ''Rank is negative.'') s)"
  by (simp add: HyperLogLog_set_register_def split: option.split)

section \<open>The index that add accesses\<close>

text \<open>
  Claim C1 (the register index of \<open>add\<close>). The code does not use the top \<open>k\<close> bits of the
  hash as the index but the top \<open>k\<close> bits plus 1. For the estimator that construction
  returns for \<open>k = 2\<close>: with the hash \<open>0x5772ED8E\<close> (Murmur3 of the empty input under
  seed 314), whose top two bits are 1, \<open>add\<close> writes register 2, not register 1; with the
  hash \<open>0xCDCDD85E\<close> (Murmur3 of the one byte \<open>a\<close> under seed 314), whose top two bits are
  3, \<open>add\<close> accesses position 4 of the 4-byte buffer, which is outside it.
\<close>

theorem add_index_off_by_one:
  "HyperLogLog_init HyperLogLog_new 2 None = Return fresh_k2 \<and>
   drop_bit (32 - 2) (0x5772ED8E :: uint32_t) = 1 \<and>
   HyperLogLog_add (\<lambda>data sd. 0x5772ED8E) fresh_k2 [] =
     Return (fresh_k2\<lparr>registers := Some [0, 0, 2, 0]\<rparr>) \<and>
   drop_bit (32 - 2) (0xCDCDD85E :: uint32_t) = 3 \<and>
   HyperLogLog_add (\<lambda>data sd. 0xCDCDD85E) fresh_k2 [0x61] = Undefined"
  by (simp add: HyperLogLog_init_def HyperLogLog_new_def fresh_k2_def HyperLogLog_add_def
      add_index_def add_rank_def leadingZeroCount_def smear_def ones_def Let_def rep4)

section \<open>The index check of set_register\<close>

text \<open>
  Claim C5 (the errors of \<open>set_register\<close>). The index check is \<open>index > size\<close>: for the
  estimator of \<open>k = 2\<close>, whose size is 4, \<open>set_register(4, 1)\<close> raises no \<open>IndexError\<close> and
  writes position 4, outside the buffer. An index above the size raises \<open>IndexError\<close>, a
  rank of 33 raises \<open>ValueError\<close>, and a valid call overwrites exactly its register.
\<close>

theorem set_register_index_eq_size:
  "size_hll fresh_k2 = 4 \<and> HyperLogLog_set_register fresh_k2 4 1 = Undefined \<and>
   HyperLogLog_set_register fresh_k2 5 1 =
     Raise (IndexError ''Index greater than the number of registers.'') fresh_k2 \<and>
   HyperLogLog_set_register fresh_k2 3 33 =
     Raise (ValueError ''Rank is greater than the maximum possible rank.'') fresh_k2 \<and>
   HyperLogLog_set_register fresh_k2 3 32 = Return (fresh_k2\<lparr>registers := Some [0, 0, 0, 32]\<rparr>)"
  by (simp add: fresh_k2_def HyperLogLog_set_register_def)

section \<open>Estimation on a fresh estimator\<close>

lemma zeros_loop_nonnull: "zeros_loop i n (Some regs) zeros = zeros"
proof (induction i n "Some regs" zeros rule: zeros_loop.induct)
  case (1 i n zeros)
  then show ?case by (subst zeros_loop.simps) simp
qed

lemma count_zeros_nonnull: "registers self = Some regs \<Longrightarrow> count_zeros self = 0"
  by (simp add: count_zeros_def zeros_loop_nonnull)

lemma sum_loop_const:
  "(\<And>j. j < n \<Longrightarrow> regs ! j = c) \<Longrightarrow>
   sum_loop i n regs s = s + real (n - i) / 2 ^ unat (scast c :: uint32_t)"
proof (induction i n regs s rule: sum_loop.induct)
  case (1 i n regs s)
  show ?case
  proof (cases "i < n")
    case True
    then have "sum_loop i n regs s =
        sum_loop (Suc i) n regs (s + 1 / 2 ^ unat (scast (regs ! i) :: uint32_t))"
      by (subst sum_loop.simps) simp
    also have "\<dots> = s + 1 / 2 ^ unat (scast (regs ! i) :: uint32_t)
         + real (n - Suc i) / 2 ^ unat (scast c :: uint32_t)"
      using True "1.prems" "1.IH" by simp
    also have "regs ! i = c" using True "1.prems" by simp
    also have "s + 1 / 2 ^ unat (scast c :: uint32_t) + real (n - Suc i) / 2 ^ unat (scast c :: uint32_t)
        = s + real (n - i) / 2 ^ unat (scast c :: uint32_t)"
      using True by (simp add: field_simps)
    finally show ?thesis .
  next
    case False
    then show ?thesis by (subst sum_loop.simps) simp
  qed
qed

lemma raw_fresh_k4: "raw_estimate 16 (replicate 16 0) = 10.768"
  by (simp add: raw_estimate_def alpha_of_def sum_loop_const [where c = 0])

text \<open>
  Claim C2 (the count of zero registers in \<open>cardinality\<close>). The count tests the pointer,
  not the registers. For the estimator that construction returns for \<open>k = 4\<close>, the raw
  estimate is at most \<open>2.5 * size\<close> and all 16 registers are 0, yet \<open>zeros\<close> is 0 and
  \<open>estimate\<close> is the raw estimate 10.768 at that step, not the linear-counting value
  \<open>16 * ln (16 / 16) = 0\<close>.
\<close>

theorem zero_count_is_pointer_test:
  "HyperLogLog_init HyperLogLog_new 4 None = Return fresh_k4 \<and>
   raw_estimate (size_hll fresh_k4) (replicate 16 0) \<le> 2.5 * real (unat (size_hll fresh_k4)) \<and>
   length (filter (\<lambda>r. r = 0) (replicate 16 (0::char_t))) = 16 \<and>
   count_zeros fresh_k4 = 0 \<and>
   small_range fresh_k4 (replicate 16 0) = 10.768 \<and>
   real (unat (size_hll fresh_k4)) * ln (real (unat (size_hll fresh_k4)) / 16) = 0"
  by (simp add: HyperLogLog_init_def HyperLogLog_new_def Let_def fresh_k4_def
      small_range_def raw_fresh_k4 count_zeros_def zeros_loop_nonnull)

text \<open>
  Claim C3 (the result of \<open>cardinality\<close>). For the estimator that construction returns for
  \<open>k = 4\<close>, with all registers 0, \<open>cardinality\<close> returns \<open>0.673 * 16 = 10.768\<close>, not 0.
\<close>

theorem cardinality_all_zero:
  "HyperLogLog_init HyperLogLog_new 4 None = Return fresh_k4 \<and>
   HyperLogLog_cardinality fresh_k4 = Return (Finite 10.768)"
  by (simp add: HyperLogLog_init_def HyperLogLog_new_def Let_def fresh_k4_def
      HyperLogLog_cardinality_def small_range_def raw_fresh_k4 count_zeros_def
      zeros_loop_nonnull two_32_def)

section \<open>Registers as small numbers\<close>

lemma unat_small:
  fixes r :: char_t
  assumes "r \<le> 32"
  shows "unat r \<le> 32"
  using assms by (simp add: word_le_nat_alt)

lemma sint_small:
  fixes r :: char_t
  assumes "r \<le> 32"
  shows "sint r = int (unat r)"
proof -
  have e: "uint r = int (unat r)" by (rule uint_nat)
  have u: "uint r \<le> 32" using unat_small [OF assms] e by linarith
  have "sint r = signed_take_bit 7 (uint r)" using sint_uint [of r] by simp
  also have "\<dots> = uint r"
  proof -
    have "- 128 \<le> uint r" using uint_nonnegative [of r] by linarith
    moreover have "uint r < 128" using u by linarith
    ultimately show ?thesis using signed_take_bit_int_eq_self [of 7 "uint r"] by simp
  qed
  finally show ?thesis unfolding e .
qed

lemma unat_scast_small:
  fixes r :: char_t
  assumes "r \<le> 32"
  shows "unat (scast r :: uint32_t) = unat r"
proof -
  have "(scast r :: uint32_t) = ucast r"
    by (simp add: scast_eq sint_small [OF assms])
  moreover have "unat (ucast r :: uint32_t) = take_bit 32 (unat r)"
    by (simp add: unsigned_ucast_eq)
  moreover have "take_bit 32 (unat r) = unat r"
    using unat_small [OF assms] by (simp add: take_bit_eq_mod)
  ultimately show ?thesis by simp
qed

lemma unat_ucast_small:
  fixes x :: uint32_t
  assumes "unat x \<le> 32"
  shows "unat (ucast x :: char_t) = unat x"
proof -
  have "unat (ucast x :: char_t) = take_bit 8 (unat x)"
    by (simp add: unsigned_ucast_eq)
  also have "\<dots> = unat x" using assms by (simp add: take_bit_eq_mod)
  finally show ?thesis .
qed

lemma add_write_is_max:
  fixes reg :: char_t and rank :: uint32_t
  assumes "reg \<le> 32" "unat rank \<le> 32"
  shows "(if rank > scast reg then ucast rank else reg) = max reg (ucast rank)"
    and "max reg (ucast rank) \<le> 32"
proof -
  have "rank > scast reg \<longleftrightarrow> unat reg < unat rank"
    by (simp add: word_less_nat_alt unat_scast_small [OF assms(1)])
  moreover have "reg \<le> (ucast rank :: char_t) \<longleftrightarrow> unat reg \<le> unat rank"
    by (simp add: word_le_nat_alt unat_ucast_small [OF assms(2)])
  moreover have "unat reg = unat rank \<Longrightarrow> reg = ucast rank"
    using unat_ucast_small [OF assms(2)] by (metis word_unat_eq_iff)
  ultimately show "(if rank > scast reg then ucast rank else reg) = max reg (ucast rank)"
    by (auto simp add: max_def)
  have "(ucast rank :: char_t) \<le> 32"
    using assms(2) by (simp add: word_le_nat_alt unat_ucast_small [OF assms(2)])
  with assms(1) show "max reg (ucast rank) \<le> 32" by (simp add: max_def)
qed

lemma add_rank_bound:
  assumes "2 \<le> kv" "kv \<le> 16"
  shows "unat (add_rank kv h) \<le> 32"
proof -
  have "unat (add_rank kv h) = spec_rank (nat kv) h"
    using assms by (intro unat_add_rank) simp_all
  moreover have "spec_rank (nat kv) h \<le> 33 - nat kv"
    using assms by (intro spec_rank_le) linarith
  moreover have "33 - nat kv \<le> 32" using assms by linarith
  ultimately show ?thesis by linarith
qed

lemma valid_registers:
  assumes "valid self"
  obtains regs where "registers self = Some regs" "length regs = unat (size_hll self)"
    "list_all (\<lambda>r. r \<le> 32) regs"
  using assms by (auto simp add: valid_def split: option.splits)

lemma valid_update:
  assumes "valid self" "registers self = Some regs" "length regs' = length regs"
    "list_all (\<lambda>r. r \<le> 32) regs'"
  shows "valid (self\<lparr>registers := Some regs'\<rparr>)"
  using assms by (simp add: valid_def)

lemma list_all_update:
  "list_all P xs \<Longrightarrow> P x \<Longrightarrow> list_all P (xs[i := x])"
  by (cases "i < length xs") (auto simp add: list_all_length nth_list_update)

lemma add_valid:
  assumes "valid self" "registers self = Some regs"
    "unat (add_index (k self) (mh data (seed self))) < length regs"
  shows "HyperLogLog_add mh self data =
     Return (self\<lparr>registers := Some (regs[unat (add_index (k self) (mh data (seed self))) :=
        max (regs ! unat (add_index (k self) (mh data (seed self))))
            (ucast (add_rank (k self) (mh data (seed self))))])\<rparr>)"
proof -
  let ?i = "unat (add_index (k self) (mh data (seed self)))"
  let ?r = "add_rank (k self) (mh data (seed self))"
  have kr: "2 \<le> k self" "k self \<le> 16" using assms(1) by (simp_all add: valid_def)
  have reg: "regs ! ?i \<le> 32"
    using assms by (simp add: valid_def list_all_length)
  have r: "unat ?r \<le> 32" by (rule add_rank_bound [OF kr])
  note m = add_write_is_max(1) [OF reg r]
  show ?thesis
  proof (cases "?r > scast (regs ! ?i)")
    case True
    with m have "max (regs ! ?i) (ucast ?r) = ucast ?r" by simp
    with True kr assms(2,3) show ?thesis
      by (simp add: HyperLogLog_add_def Let_def)
  next
    case False
    with m have "max (regs ! ?i) (ucast ?r) = regs ! ?i" by simp
    then have "self\<lparr>registers := Some (regs[?i := max (regs ! ?i) (ucast ?r)])\<rparr> = self"
      using assms(2) by simp
    with False kr assms(2,3) show ?thesis
      by (simp add: HyperLogLog_add_def Let_def)
  qed
qed

lemma add_undefined:
  assumes "valid self" "registers self = Some regs"
    "\<not> unat (add_index (k self) (mh data (seed self))) < length regs"
  shows "HyperLogLog_add mh self data = Undefined"
  using assms by (simp add: HyperLogLog_add_def Let_def valid_def)

lemma add_preserves_valid:
  assumes "valid self" "HyperLogLog_add mh self data = Return self'"
  shows "valid self' \<and> k self' = k self \<and> seed self' = seed self"
proof -
  from assms(1) obtain regs where regs: "registers self = Some regs"
    by (auto simp add: valid_def split: option.splits)
  let ?i = "unat (add_index (k self) (mh data (seed self)))"
  let ?r = "add_rank (k self) (mh data (seed self))"
  have kr: "2 \<le> k self" "k self \<le> 16" using assms(1) by (simp_all add: valid_def)
  have i: "?i < length regs"
    using add_undefined [OF assms(1) regs, of mh data] assms(2) by auto
  have reg: "regs ! ?i \<le> 32"
    using assms(1) regs i by (simp add: valid_def list_all_length)
  have r: "unat ?r \<le> 32" by (rule add_rank_bound [OF kr])
  have s': "self' = self\<lparr>registers := Some (regs[?i := max (regs ! ?i) (ucast ?r)])\<rparr>"
    using add_valid [where mh = mh and data = data, OF assms(1) regs i] assms(2) by simp
  have "list_all (\<lambda>r. r \<le> 32) regs"
    using assms(1) regs by (auto elim: valid_registers)
  then have "list_all (\<lambda>r. r \<le> 32) (regs[?i := max (regs ! ?i) (ucast ?r)])"
    using add_write_is_max(2) [OF reg r] by (rule list_all_update)
  then have "valid self'"
    unfolding s' by (intro valid_update [OF assms(1) regs]) simp_all
  then show ?thesis by (simp add: s')
qed

lemma add_again:
  assumes "valid self" "HyperLogLog_add mh self data = Return self'"
  shows "HyperLogLog_add mh self' data = Return self'"
proof -
  from assms(1) obtain regs where regs: "registers self = Some regs"
    by (auto simp add: valid_def split: option.splits)
  let ?i = "unat (add_index (k self) (mh data (seed self)))"
  let ?r = "add_rank (k self) (mh data (seed self))"
  let ?regs' = "regs[?i := max (regs ! ?i) (ucast ?r)]"
  have i: "?i < length regs"
    using add_undefined [OF assms(1) regs, of mh data] assms(2) by auto
  have s': "self' = self\<lparr>registers := Some ?regs'\<rparr>"
    using add_valid [where mh = mh and data = data, OF assms(1) regs i] assms(2) by simp
  note v = add_preserves_valid [OF assms]
  have regs': "registers self' = Some ?regs'" by (simp add: s')
  have i': "unat (add_index (k self') (mh data (seed self'))) < length ?regs'"
    using i v by simp
  have "HyperLogLog_add mh self' data =
      Return (self'\<lparr>registers := Some (?regs'[?i := max (?regs' ! ?i) (ucast ?r)])\<rparr>)"
    using add_valid [where mh = mh and data = data, OF conjunct1 [OF v] regs' i'] v by simp
  also have "?regs'[?i := max (?regs' ! ?i) (ucast ?r)] = ?regs'"
    using i by simp
  also have "self'\<lparr>registers := Some ?regs'\<rparr> = self'" by (simp add: s')
  finally show ?thesis .
qed

lemma add_times_fixed:
  "HyperLogLog_add mh self data = Return self \<Longrightarrow> add_times mh n self data = Return self"
  by (induction n) simp_all

lemma valid_fresh_k4: "valid fresh_k4"
  by (simp add: valid_def fresh_k4_def list_all_length)

lemma valid_examples: "valid fresh_k2" "valid fresh_k4" "valid example_a" "valid example_b"
  by (simp_all add: valid_fresh_k4)
    (simp_all add: valid_def fresh_k2_def example_a_def example_b_def)

lemma add_example:
  "HyperLogLog_add (\<lambda>data sd. 0x5772ED8E) fresh_k2 [] =
     Return (fresh_k2\<lparr>registers := Some [0, 0, 2, 0]\<rparr>)"
  by (simp add: fresh_k2_def HyperLogLog_add_def
      add_index_def add_rank_def leadingZeroCount_def smear_def ones_def Let_def)

section \<open>Repeated insertion\<close>

text \<open>
  On a valid estimator, \<open>N \<ge> 1\<close> calls of \<open>add\<close> with the same data end as one call ends,
  and a call that stays inside the buffer writes the maximum of the register and the
  rank at the position it computes.
\<close>

lemma add_repeated_in_bounds:
  assumes "valid self" and "1 \<le> N"
  shows "add_times mh N self data = HyperLogLog_add mh self data \<and>
    (\<forall>regs. registers self = Some regs \<and>
        unat (add_index (k self) (mh data (seed self))) < length regs \<longrightarrow>
      HyperLogLog_add mh self data =
        Return (self\<lparr>registers := Some (regs[unat (add_index (k self) (mh data (seed self))) :=
          max (regs ! unat (add_index (k self) (mh data (seed self))))
              (ucast (add_rank (k self) (mh data (seed self))))])\<rparr>))"
proof (intro conjI allI impI)
  from assms(2) obtain n where N: "N = Suc n" by (cases N) simp_all
  show "add_times mh N self data = HyperLogLog_add mh self data"
  proof (cases "HyperLogLog_add mh self data")
    case (Return self')
    then have "HyperLogLog_add mh self' data = Return self'"
      by (rule add_again [OF assms(1)])
    then have "add_times mh n self' data = Return self'" by (rule add_times_fixed)
    with Return show ?thesis by (simp add: N)
  next
    case (Raise e self')
    then show ?thesis by (simp add: N)
  next
    case Undefined
    then show ?thesis by (simp add: N)
  qed
next
  fix regs
  assume "registers self = Some regs \<and>
        unat (add_index (k self) (mh data (seed self))) < length regs"
  then show "HyperLogLog_add mh self data =
        Return (self\<lparr>registers := Some (regs[unat (add_index (k self) (mh data (seed self))) :=
          max (regs ! unat (add_index (k self) (mh data (seed self))))
              (ucast (add_rank (k self) (mh data (seed self))))])\<rparr>)"
    using add_valid [where mh = mh and data = data, OF assms(1)] by blast
qed

lemma add_example_outside:
  "HyperLogLog_add (\<lambda>data sd. 0xCDCDD85E) fresh_k2 [0x61] = Undefined"
  by (simp add: fresh_k2_def HyperLogLog_add_def add_index_def Let_def)

text \<open>
  Claim C6 (inserting the same bytes \<open>N\<close> times). For the estimator of \<open>k = 2\<close> and the one
  byte \<open>a\<close>, whose hash under seed 314 is \<open>0xCDCDD85E\<close>, \<open>add\<close> computes the rank 3 and the
  position 4, outside the 4-byte buffer: one call is undefined and so are three, and no
  register array with the rank at \<open>registers[index]\<close> is left behind. For the empty input,
  where \<open>add\<close> stays inside the buffer, three calls leave the registers that one call
  leaves.
\<close>

theorem add_repeat_outside_buffer:
  "valid fresh_k2 \<and>
   unat (add_index (k fresh_k2) 0xCDCDD85E) = 4 \<and>
   unat (add_rank (k fresh_k2) 0xCDCDD85E) = 3 \<and>
   HyperLogLog_add (\<lambda>data sd. 0xCDCDD85E) fresh_k2 [0x61] = Undefined \<and>
   add_times (\<lambda>data sd. 0xCDCDD85E) 3 fresh_k2 [0x61] = Undefined \<and>
   HyperLogLog_add (\<lambda>data sd. 0x5772ED8E) fresh_k2 [] =
     Return (fresh_k2\<lparr>registers := Some [0, 0, 2, 0]\<rparr>) \<and>
   add_times (\<lambda>data sd. 0x5772ED8E) 3 fresh_k2 [] =
     Return (fresh_k2\<lparr>registers := Some [0, 0, 2, 0]\<rparr>)"
proof (intro conjI)
  show "valid fresh_k2" by (rule valid_examples)
  show "unat (add_index (k fresh_k2) 0xCDCDD85E) = 4"
    by (simp add: fresh_k2_def add_index_def)
  show "unat (add_rank (k fresh_k2) 0xCDCDD85E) = 3"
    by (simp add: fresh_k2_def add_rank_def leadingZeroCount_def smear_def ones_def Let_def)
  show "HyperLogLog_add (\<lambda>data sd. 0xCDCDD85E) fresh_k2 [0x61] = Undefined"
    by (rule add_example_outside)
  show "add_times (\<lambda>data sd. 0xCDCDD85E) 3 fresh_k2 [0x61] = Undefined"
    by (simp add: numeral_3_eq_3 add_example_outside)
  show "HyperLogLog_add (\<lambda>data sd. 0x5772ED8E) fresh_k2 [] =
     Return (fresh_k2\<lparr>registers := Some [0, 0, 2, 0]\<rparr>)"
    by (rule add_example)
  show "add_times (\<lambda>data sd. 0x5772ED8E) 3 fresh_k2 [] =
     Return (fresh_k2\<lparr>registers := Some [0, 0, 2, 0]\<rparr>)"
    using add_repeated_in_bounds [OF valid_examples(1), of 3 "\<lambda>data sd. 0x5772ED8E" "[]"]
    by (simp add: add_example)
qed

section \<open>The merge loop\<close>

lemma merge_loop_length: "length (merge_loop i n regs p) = length regs"
proof (induction i n regs p rule: merge_loop.induct)
  case (1 i n regs p)
  show ?case
  proof (cases "i < n")
    case True
    then show ?thesis using "1.IH" by (subst merge_loop.simps) simp
  next
    case False
    then show ?thesis by (subst merge_loop.simps) simp
  qed
qed

lemma merge_loop_nth:
  "j < length regs \<Longrightarrow>
   merge_loop i n regs p ! j =
     (if i \<le> j \<and> j < n then char_max (regs ! j) (p ! j) else regs ! j)"
proof (induction i n regs p rule: merge_loop.induct)
  case (1 i n regs p)
  show ?case
  proof (cases "i < n")
    case False
    then show ?thesis by (subst merge_loop.simps) auto
  next
    case True
    let ?regs' = "if sint (regs ! i) < sint (p ! i) then regs[i := p ! i] else regs"
    have len: "j < length ?regs'" using "1.prems" by simp
    have step: "merge_loop i n regs p = merge_loop (Suc i) n ?regs' p"
      using True by (subst merge_loop.simps) simp
    have ih: "merge_loop (Suc i) n ?regs' p ! j =
        (if Suc i \<le> j \<and> j < n then char_max (?regs' ! j) (p ! j) else ?regs' ! j)"
      using "1.IH" [OF True len] .
    have off_i: "?regs' ! j = regs ! j" if "j \<noteq> i"
      using that by simp
    show ?thesis
    proof (cases "j = i")
      case True
      with \<open>i < n\<close> "1.prems" show ?thesis unfolding step ih by (simp add: char_max_def)
    next
      case False
      then show ?thesis unfolding step ih by (auto simp add: off_i)
    qed
  qed
qed

lemma merge_loop_map2:
  assumes "length regs = n" "length p = n"
  shows "merge_loop 0 n regs p = map2 char_max regs p"
proof (rule nth_equalityI)
  show "length (merge_loop 0 n regs p) = length (map2 char_max regs p)"
    using assms by (simp add: merge_loop_length)
next
  fix j
  assume "j < length (merge_loop 0 n regs p)"
  then have j: "j < n" using assms by (simp add: merge_loop_length)
  then show "merge_loop 0 n regs p ! j = map2 char_max regs p ! j"
    using assms by (simp add: merge_loop_nth)
qed

lemma char_max_small:
  assumes "a \<le> 32" "b \<le> 32"
  shows "char_max a b = max a b"
proof -
  have "sint a < sint b \<longleftrightarrow> int (unat a) < int (unat b)"
    by (simp only: sint_small [OF assms(1)] sint_small [OF assms(2)])
  also have "\<dots> \<longleftrightarrow> unat a < unat b" by (rule of_nat_less_iff)
  also have "\<dots> \<longleftrightarrow> a < b" by (simp only: word_less_nat_alt)
  finally have "sint a < sint b \<longleftrightarrow> a < b" .
  then show ?thesis by (auto simp add: char_max_def max_def)
qed

lemma map2_char_max_small:
  assumes "list_all (\<lambda>r. r \<le> 32) xs" "list_all (\<lambda>r. r \<le> 32) ys"
  shows "map2 char_max xs ys = map2 max xs ys"
proof (rule nth_equalityI)
  show "length (map2 char_max xs ys) = length (map2 max xs ys)" by simp
next
  fix j
  assume "j < length (map2 char_max xs ys)"
  then have "j < length xs" "j < length ys" by simp_all
  moreover from this have "xs ! j \<le> 32" "ys ! j \<le> 32"
    using assms by (simp_all add: list_all_length)
  ultimately show "map2 char_max xs ys ! j = map2 max xs ys ! j"
    by (simp add: char_max_small)
qed

lemma map2_max_bound:
  assumes "list_all (\<lambda>r. r \<le> (32::char_t)) xs" "list_all (\<lambda>r. r \<le> 32) ys"
  shows "list_all (\<lambda>r. r \<le> 32) (map2 max xs ys)"
  using assms by (simp add: list_all_length)

lemma map2_max_self: "map2 max xs xs = (xs :: char_t list)"
  by (rule nth_equalityI) simp_all

lemma map2_max_absorb:
  "length xs = length ys \<Longrightarrow> map2 max (map2 max xs ys) ys = map2 max xs (ys :: char_t list)"
  by (rule nth_equalityI) simp_all

lemma map2_max_commute:
  "length xs = length ys \<Longrightarrow> map2 max xs ys = map2 max ys (xs :: char_t list)"
  by (rule nth_equalityI) (simp_all add: max.commute)

lemma valid_size:
  assumes "valid self"
  shows "HyperLogLog_size self = uint (size_hll self)"
proof -
  have kr: "2 \<le> k self" "k self \<le> 16" and sz: "size_hll self = push_bit (nat (k self)) 1"
    using assms by (simp_all add: valid_def)
  have "unat (size_hll self) = 2 ^ nat (k self)" unfolding sz by (rule sz_pow [OF kr])
  moreover have "nat (k self) \<le> 16" using kr by linarith
  then have "(2::nat) ^ nat (k self) \<le> 2 ^ 16" by (intro power_increasing) simp_all
  ultimately have u: "unat (size_hll self) \<le> 65536" by simp
  have e: "uint (size_hll self) = int (unat (size_hll self))" by (rule uint_nat)
  have "sint (size_hll self) = signed_take_bit 31 (uint (size_hll self))"
    using sint_uint [of "size_hll self"] by simp
  also have "\<dots> = uint (size_hll self)"
  proof -
    have "- 2147483648 \<le> uint (size_hll self)"
      using uint_nonnegative [of "size_hll self"] by linarith
    moreover have "uint (size_hll self) < 2147483648" using u e by linarith
    ultimately show ?thesis
      using signed_take_bit_int_eq_self [of 31 "uint (size_hll self)"] by simp
  qed
  finally show ?thesis by (simp only: HyperLogLog_size_def)
qed

lemma merge_same_size:
  assumes "h a = Some self" "h b = Some hll" "valid self" "valid hll"
    "registers self = Some regs" "registers hll = Some hllRegs"
    "size_hll hll = size_hll self"
  shows "HyperLogLog_merge malloc_only h a b =
     Return (h(a \<mapsto> self\<lparr>registers := Some (map2 max regs hllRegs)\<rparr>))"
proof -
  have lr: "length regs = unat (size_hll self)" "list_all (\<lambda>r. r \<le> 32) regs"
    using assms(3,5) by (auto elim: valid_registers)
  have lh: "length hllRegs = unat (size_hll self)" "list_all (\<lambda>r. r \<le> 32) hllRegs"
    using assms(4,6,7) by (auto elim: valid_registers)
  have sz: "HyperLogLog_size hll = uint (size_hll self)"
    using valid_size [OF assms(4)] assms(7) by simp
  have rg: "HyperLogLog_registers malloc_only hll =
      Return \<lparr>ob_bytes = hllRegs, ob_bytes_from = Malloc\<rparr>"
    using assms(6,7) lh by (simp add: HyperLogLog_registers_def malloc_only_def)
  have "merge_loop 0 (unat (size_hll self)) regs hllRegs = map2 max regs hllRegs"
    using merge_loop_map2 [OF lr(1) lh(1)] map2_char_max_small [OF lr(2) lh(2)] by simp
  then show ?thesis
    using assms(1,2,5) sz rg lr(1) lh(1) by (simp add: HyperLogLog_merge_def)
qed

lemma merge_invalid_free:
  assumes "h a = Some self" "h b = Some hll" "valid self" "valid hll"
    "size_hll hll = size_hll self" "pm (unat (size_hll hll) + 1) \<noteq> Malloc"
  shows "HyperLogLog_merge pm h a b = Undefined"
proof -
  obtain regs where regs: "registers self = Some regs" "length regs = unat (size_hll self)"
    using assms(3) by (auto elim: valid_registers)
  obtain hllRegs where hr: "registers hll = Some hllRegs"
    "length hllRegs = unat (size_hll hll)"
    using assms(4) by (auto elim: valid_registers)
  have sz: "HyperLogLog_size hll = uint (size_hll self)"
    using valid_size [OF assms(4)] assms(5) by simp
  have rg: "HyperLogLog_registers pm hll =
      Return \<lparr>ob_bytes = hllRegs, ob_bytes_from = pm (unat (size_hll hll) + 1)\<rparr>"
    using hr by (simp add: HyperLogLog_registers_def)
  show ?thesis
    using assms(1,2,5,6) regs hr sz rg by (simp add: HyperLogLog_merge_def Let_def)
qed

lemma merge_other_size:
  assumes "h a = Some self" "h b = Some hll" "valid self" "valid hll"
    "size_hll hll \<noteq> size_hll self"
  shows "HyperLogLog_merge pm h a b =
    Raise (ValueError ''HyperLogLogs must be the same size'') h"
proof -
  have "HyperLogLog_size hll \<noteq> uint (size_hll self)"
    using valid_size [OF assms(4)] assms(5) by (simp add: word_uint_eq_iff)
  then show ?thesis using assms(1,2) by (simp add: HyperLogLog_merge_def)
qed

lemma merge_result_valid:
  assumes "valid self" "valid hll" "registers self = Some regs" "registers hll = Some hllRegs"
    "size_hll hll = size_hll self"
  shows "valid (self\<lparr>registers := Some (map2 max regs hllRegs)\<rparr>)"
proof -
  have lr: "length regs = unat (size_hll self)" "list_all (\<lambda>r. r \<le> 32) regs"
    using assms(1,3) by (auto elim: valid_registers)
  have lh: "length hllRegs = unat (size_hll self)" "list_all (\<lambda>r. r \<le> 32) hllRegs"
    using assms(2,4,5) by (auto elim: valid_registers)
  show ?thesis
    using lr(1) lh(1) map2_max_bound [OF lr(2) lh(2)]
    by (intro valid_update [OF assms(1,3)]) simp_all
qed

section \<open>Merge under a runtime that allocates with malloc\<close>

text \<open>
  Where the buffer of the bytearray comes from \<open>malloc\<close>, the \<open>free\<close> of line 208 is
  defined and \<open>merge\<close> does what its loop does: the element-wise maximum, the peer left
  as it was, \<open>ValueError\<close> for a peer of another size.
\<close>

lemma merge_contract_malloc:
  assumes "h a = Some self" and "h b = Some hll" and "valid self" and "valid hll"
    and "registers self = Some regs" and "registers hll = Some hllRegs"
  shows "(size_hll hll = size_hll self \<longrightarrow>
      HyperLogLog_merge malloc_only h a b =
        Return (h(a \<mapsto> self\<lparr>registers := Some (map2 max regs hllRegs)\<rparr>)) \<and>
      length (map2 max regs hllRegs) = length regs \<and>
      (\<forall>i<length regs. map2 max regs hllRegs ! i = max (regs ! i) (hllRegs ! i)) \<and>
      (\<exists>hll'. (h(a \<mapsto> self\<lparr>registers := Some (map2 max regs hllRegs)\<rparr>)) b = Some hll' \<and>
          registers hll' = Some hllRegs)) \<and>
    (size_hll hll \<noteq> size_hll self \<longrightarrow>
      HyperLogLog_merge malloc_only h a b =
        Raise (ValueError ''HyperLogLogs must be the same size'') h)"
proof (intro conjI impI)
  assume sz: "size_hll hll = size_hll self"
  have lr: "length regs = unat (size_hll self)"
    using assms(3,5) by (auto elim: valid_registers)
  have lh: "length hllRegs = unat (size_hll self)"
    using assms(4,6) sz by (auto elim: valid_registers)
  show "HyperLogLog_merge malloc_only h a b =
        Return (h(a \<mapsto> self\<lparr>registers := Some (map2 max regs hllRegs)\<rparr>))"
    using assms sz by (rule merge_same_size)
  show "length (map2 max regs hllRegs) = length regs" using lr lh by simp
  show "\<forall>i<length regs. map2 max regs hllRegs ! i = max (regs ! i) (hllRegs ! i)"
    using lr lh by simp
  show "\<exists>hll'. (h(a \<mapsto> self\<lparr>registers := Some (map2 max regs hllRegs)\<rparr>)) b = Some hll' \<and>
          registers hll' = Some hllRegs"
  proof (cases "b = a")
    case True
    with assms(1,2,5,6) have "hllRegs = regs" by simp
    with True show ?thesis by (simp add: map2_max_self)
  next
    case False
    with assms(2,6) show ?thesis by simp
  qed
next
  assume "size_hll hll \<noteq> size_hll self"
  with assms(1-4) show "HyperLogLog_merge malloc_only h a b =
      Raise (ValueError ''HyperLogLogs must be the same size'') h"
    by (rule merge_other_size)
qed

lemma merge_commutative_idempotent_malloc:
  assumes "h a = Some A" and "h b = Some B" and "valid A" and "valid B"
    and "size_hll A = size_hll B" and "registers A = Some ra" and "registers B = Some rb"
  shows "HyperLogLog_merge malloc_only h b a = Return (h(b \<mapsto> B\<lparr>registers := Some (map2 max rb ra)\<rparr>)) \<and>
    HyperLogLog_merge malloc_only h a b = Return (h(a \<mapsto> A\<lparr>registers := Some (map2 max ra rb)\<rparr>)) \<and>
    map2 max rb ra = map2 max ra rb \<and>
    HyperLogLog_merge malloc_only (h(b \<mapsto> B\<lparr>registers := Some (map2 max rb ra)\<rparr>)) b a =
      Return (h(b \<mapsto> B\<lparr>registers := Some (map2 max rb ra)\<rparr>))"
proof (intro conjI)
  let ?m = "map2 max rb ra"
  let ?B' = "B\<lparr>registers := Some ?m\<rparr>"
  let ?h1 = "h(b \<mapsto> ?B')"
  have la: "length ra = unat (size_hll A)" using assms(3,6) by (auto elim: valid_registers)
  have lb: "length rb = unat (size_hll B)" using assms(4,7) by (auto elim: valid_registers)
  have len: "length rb = length ra" using la lb assms(5) by simp
  show first: "HyperLogLog_merge malloc_only h b a = Return ?h1"
    using assms(2,1,4,3,7,6,5) by (rule merge_same_size)
  show "HyperLogLog_merge malloc_only h a b = Return (h(a \<mapsto> A\<lparr>registers := Some (map2 max ra rb)\<rparr>))"
    using assms(1,2,3,4,6,7) assms(5) [symmetric] by (rule merge_same_size)
  show "?m = map2 max ra rb" using len by (rule map2_max_commute)
  have vB': "valid ?B'" using assms(4,3,7,6,5) by (rule merge_result_valid)
  show "HyperLogLog_merge malloc_only ?h1 b a = Return ?h1"
  proof (cases "a = b")
    case True
    have "HyperLogLog_merge malloc_only ?h1 b b =
        Return (?h1(b \<mapsto> ?B'\<lparr>registers := Some (map2 max ?m ?m)\<rparr>))"
      by (rule merge_same_size [OF _ _ vB' vB']) simp_all
    then show ?thesis using True by (simp add: map2_max_self)
  next
    case False
    have "HyperLogLog_merge malloc_only ?h1 b a =
        Return (?h1(b \<mapsto> ?B'\<lparr>registers := Some (map2 max ?m ra)\<rparr>))"
      using False assms(1,5,6) by (intro merge_same_size [OF _ _ vB' assms(3)]) simp_all
    then show ?thesis using len by (simp add: map2_max_absorb)
  qed
qed

section \<open>Merge under the default runtime\<close>

lemma example_heap_at:
  "example_heap 1 = Some example_a" "example_heap 2 = Some example_b"
  "example_heap 3 = Some fresh_k4"
  by (simp_all add: example_heap_def)

lemma example_sizes:
  "size_hll example_b = size_hll example_a" "size_hll fresh_k4 \<noteq> size_hll example_a"
  "registers example_a = Some [0, 5, 2, 7]" "registers example_b = Some [3, 1, 2, 9]"
  "pymalloc_default (unat (size_hll example_a) + 1) \<noteq> Malloc"
  "pymalloc_default (unat (size_hll example_b) + 1) \<noteq> Malloc"
  by (simp_all add: example_a_def example_b_def fresh_k4_def pymalloc_default_def)

text \<open>
  Claim C4 (the contract of \<open>merge\<close>). After the loop has put the element-wise maximum
  into the registers of \<open>self\<close>, line 208 frees the buffer of the peer's bytearray. For the
  two estimators of \<open>k = 2\<close> at the addresses 1 and 2 the loop computes \<open>[3, 5, 2, 9]\<close>;
  under the default runtime, where the 5-byte buffer is not from \<open>malloc\<close>, the call is
  undefined; under a runtime that allocates with \<open>malloc\<close> it returns with that array in
  \<open>self\<close> and the peer as it was. A peer of another size raises \<open>ValueError\<close> and leaves
  the heap as it was.
\<close>

theorem merge_frees_bytearray_buffer:
  "valid example_a \<and> valid example_b \<and> size_hll example_b = size_hll example_a \<and>
   merge_loop 0 4 [0, 5, 2, 7] [3, 1, 2, 9] = [3, 5, 2, 9] \<and>
   HyperLogLog_merge pymalloc_default example_heap 1 2 = Undefined \<and>
   HyperLogLog_merge malloc_only example_heap 1 2 =
     Return (example_heap(1 \<mapsto> example_a\<lparr>registers := Some [3, 5, 2, 9]\<rparr>)) \<and>
   (example_heap(1 \<mapsto> example_a\<lparr>registers := Some [3, 5, 2, 9]\<rparr>)) 2 = Some example_b \<and>
   HyperLogLog_merge pymalloc_default example_heap 1 3 =
     Raise (ValueError ''HyperLogLogs must be the same size'') example_heap"
proof (intro conjI)
  show "valid example_a" "valid example_b" by (rule valid_examples)+
  show "size_hll example_b = size_hll example_a" by (rule example_sizes)
  show "merge_loop 0 4 [0, 5, 2, 7] [3, 1, 2, 9] = [3, 5, 2, 9]"
    by (simp add: merge_loop_map2 char_max_def)
  show "HyperLogLog_merge pymalloc_default example_heap 1 2 = Undefined"
    by (rule merge_invalid_free [where pm = pymalloc_default and h = example_heap, OF example_heap_at(1,2) valid_examples(3,4) example_sizes(1,6)])
  show "HyperLogLog_merge malloc_only example_heap 1 2 =
     Return (example_heap(1 \<mapsto> example_a\<lparr>registers := Some [3, 5, 2, 9]\<rparr>))"
    using merge_same_size [where h = example_heap, OF example_heap_at(1,2) valid_examples(3,4) example_sizes(3,4,1)]
    by simp
  show "(example_heap(1 \<mapsto> example_a\<lparr>registers := Some [3, 5, 2, 9]\<rparr>)) 2 = Some example_b"
    by (simp add: example_heap_at)
  show "HyperLogLog_merge pymalloc_default example_heap 1 3 =
     Raise (ValueError ''HyperLogLogs must be the same size'') example_heap"
    by (rule merge_other_size [where h = example_heap, OF example_heap_at(1,3) valid_examples(3,2) example_sizes(2)])
qed

text \<open>
  Claim C9 (\<open>merge\<close> is commutative and idempotent). For the same two estimators under
  the default runtime, merging the one at 1 into the one at 2 is undefined, and so is
  merging the one at 2 into the one at 1: there is no register array to compare and no
  second merge. Under a runtime that allocates with \<open>malloc\<close> both orders leave
  \<open>[3, 5, 2, 9]\<close>, and merging a second time changes nothing.
\<close>

theorem merge_both_orders_undefined:
  "HyperLogLog_merge pymalloc_default example_heap 2 1 = Undefined \<and>
   HyperLogLog_merge pymalloc_default example_heap 1 2 = Undefined \<and>
   HyperLogLog_merge malloc_only example_heap 2 1 =
     Return (example_heap(2 \<mapsto> example_b\<lparr>registers := Some [3, 5, 2, 9]\<rparr>)) \<and>
   HyperLogLog_merge malloc_only example_heap 1 2 =
     Return (example_heap(1 \<mapsto> example_a\<lparr>registers := Some [3, 5, 2, 9]\<rparr>)) \<and>
   HyperLogLog_merge malloc_only
       (example_heap(2 \<mapsto> example_b\<lparr>registers := Some [3, 5, 2, 9]\<rparr>)) 2 1 =
     Return (example_heap(2 \<mapsto> example_b\<lparr>registers := Some [3, 5, 2, 9]\<rparr>))"
proof (intro conjI)
  show "HyperLogLog_merge pymalloc_default example_heap 2 1 = Undefined"
    by (rule merge_invalid_free [where pm = pymalloc_default and h = example_heap, OF example_heap_at(2,1) valid_examples(4,3)
          example_sizes(1) [symmetric] example_sizes(5)])
  show "HyperLogLog_merge pymalloc_default example_heap 1 2 = Undefined"
    by (rule merge_invalid_free [where pm = pymalloc_default and h = example_heap, OF example_heap_at(1,2) valid_examples(3,4) example_sizes(1,6)])
  note m = merge_commutative_idempotent_malloc [where h = example_heap, OF example_heap_at(1,2) valid_examples(3,4)
      example_sizes(1) [symmetric] example_sizes(3,4)]
  show "HyperLogLog_merge malloc_only example_heap 2 1 =
     Return (example_heap(2 \<mapsto> example_b\<lparr>registers := Some [3, 5, 2, 9]\<rparr>))"
    using m by simp
  show "HyperLogLog_merge malloc_only example_heap 1 2 =
     Return (example_heap(1 \<mapsto> example_a\<lparr>registers := Some [3, 5, 2, 9]\<rparr>))"
    using m by simp
  show "HyperLogLog_merge malloc_only
       (example_heap(2 \<mapsto> example_b\<lparr>registers := Some [3, 5, 2, 9]\<rparr>)) 2 1 =
     Return (example_heap(2 \<mapsto> example_b\<lparr>registers := Some [3, 5, 2, 9]\<rparr>))"
    using m by simp
qed

end
